theory Spec2Isabelle
  imports Complex_Main "HOL-Library.Word"
begin

section \<open>The blockchain demo (c/blockchain\_demo.c)\<close>

text \<open>
  The program keeps a singly linked list of blocks. Conventions of the embedding:
  \<^item> a C string is the list of its characters before the terminating NUL;
  \<^item> a chain (a \<^verbatim>\<open>Block*\<close> followed through \<^verbatim>\<open>next\<close>) is the list of its
    blocks from the head on, the null pointer being the empty list, so the field
    \<^verbatim>\<open>next\<close> is the list order;
  \<^item> the target is LP64 with a signed plain \<^verbatim>\<open>char\<close>: \<^verbatim>\<open>unsigned long\<close> is a
    64-bit word, \<^verbatim>\<open>int\<close> has 32 bits, \<^verbatim>\<open>long\<close> and \<^verbatim>\<open>time_t\<close> have 64;
  \<^item> what the environment supplies is a parameter: the value \<^verbatim>\<open>time(NULL)\<close>
    returns, the indeterminate content of the memory \<^verbatim>\<open>malloc\<close> returns
    (\<^verbatim>\<open>malloc\<close> is taken to succeed; the program never tests its result), and
    whether the C library checks the size of the destination of \<^verbatim>\<open>strcpy\<close>;
  \<^item> undefined behaviour is a fault that ends the run: the dereference of a null
    pointer, the overflow of a signed sum, and the overrun of a buffer where the library
    detects it;
  \<^item> of the console output, the lines that carry a result are kept: the report of
    \<^verbatim>\<open>add_transaction\<close> and the warning of \<^verbatim>\<open>verify_blockchain\<close>.
\<close>

subsection \<open>Constants and records\<close>

definition MAX_TRANSACTIONS :: nat where
  "MAX_TRANSACTIONS = 10"

definition HASH_LENGTH :: nat where
  "HASH_LENGTH = 32"

definition INT_MAX :: int where
  "INT_MAX = 2147483647"

record Transaction =
  sender :: string
  receiver :: string
  amount :: real
  timestamp_tx :: int

text \<open>
  \<^verbatim>\<open>transactions\<close> is the array of \<^verbatim>\<open>MAX_TRANSACTIONS\<close> slots; \<^verbatim>\<open>transaction_count\<close>
  is a count the program sets to 0 and only increments, a natural number here.
\<close>

record Block =
  index :: int
  previous_hash :: string
  transactions :: "Transaction list"
  transaction_count :: nat
  timestamp :: int
  current_hash :: string

datatype message =
  Transaction_added string string real
  | Block_full

datatype fault =
  Null_dereference
  | Signed_overflow
  | Buffer_overflow

subsection \<open>Formatted output\<close>

text \<open>\<^verbatim>\<open>snprintf(buf, size, ...)\<close> stores at most \<^verbatim>\<open>size - 1\<close> characters.\<close>

definition snprintf :: "nat \<Rightarrow> string \<Rightarrow> string" where
  "snprintf n s = take (n - 1) s"

definition digit_char :: "nat \<Rightarrow> char" where
  "digit_char d = ''0123456789abcdef'' ! d"

fun dec_digits :: "nat \<Rightarrow> string" where
  "dec_digits n =
     (if n < 10 then [digit_char n] else dec_digits (n div 10) @ [digit_char (n mod 10)])"

fun hex_digits :: "nat \<Rightarrow> string" where
  "hex_digits n =
     (if n < 16 then [digit_char n] else hex_digits (n div 16) @ [digit_char (n mod 16)])"

text \<open>The conversions \<^verbatim>\<open>%d\<close> and \<^verbatim>\<open>%ld\<close> (signed decimal) and \<^verbatim>\<open>%lx\<close>.\<close>

definition fmt_d :: "int \<Rightarrow> string" where
  "fmt_d i = (if i < 0 then CHR ''-'' # dec_digits (nat (- i)) else dec_digits (nat i))"

definition fmt_lx :: "64 word \<Rightarrow> string" where
  "fmt_lx w = hex_digits (unat w)"

subsection \<open>simple\_hash\<close>

text \<open>The value of a plain \<^verbatim>\<open>char\<close> converted to \<^verbatim>\<open>int\<close>.\<close>

definition char_value :: "char \<Rightarrow> int" where
  "char_value c = (if of_char c < (128 :: int) then of_char c else of_char c - 256)"

fun simple_hash_loop :: "64 word \<Rightarrow> string \<Rightarrow> 64 word" where
  "simple_hash_loop hash [] = hash"
| "simple_hash_loop hash (c # data) =
     simple_hash_loop ((push_bit 5 hash + hash) + word_of_int (char_value c)) data"

definition simple_hash :: "string \<Rightarrow> 64 word" where
  "simple_hash data = simple_hash_loop 5381 data"

subsection \<open>add\_transaction\<close>

text \<open>
  The function returns nothing and reports on the console; the line it prints is the
  first component of the result, the block as it leaves it the second.
\<close>

definition add_transaction ::
  "Block \<Rightarrow> string \<Rightarrow> string \<Rightarrow> real \<Rightarrow> int \<Rightarrow> message \<times> Block" where
  "add_transaction block sender_arg receiver_arg amount_arg now =
     (if transaction_count block < MAX_TRANSACTIONS then
        let tx = \<lparr>sender = snprintf 64 sender_arg, receiver = snprintf 64 receiver_arg,
                  amount = amount_arg, timestamp_tx = now\<rparr>
        in (Transaction_added sender_arg receiver_arg amount_arg,
            block\<lparr>transactions := (transactions block)[transaction_count block := tx],
                  transaction_count := transaction_count block + 1\<rparr>)
      else (Block_full, block))"

subsection \<open>calculate\_block\_hash\<close>

definition calculate_block_hash :: "Block \<Rightarrow> Block" where
  "calculate_block_hash block =
     (let hash_data = snprintf 256
            (fmt_d (index block) @ previous_hash block @ fmt_d (timestamp block))
      in block\<lparr>current_hash := snprintf HASH_LENGTH (fmt_lx (simple_hash hash_data))\<rparr>)"

subsection \<open>create\_genesis\_block\<close>

text \<open>
  The head pointer is overwritten, so the result is the chain of the one new block.

  The literal copied into \<^verbatim>\<open>previous_hash\<close> has 38 characters: with its terminator
  \<^verbatim>\<open>strcpy\<close> writes 39 bytes into an array of \<^verbatim>\<open>HASH_LENGTH + 1\<close>, that is 33, which
  is undefined. What the program then does is the C library's:
  \<^item> a library that checks the size of the destination (a build with
    \<^verbatim>\<open>_FORTIFY_SOURCE\<close>) aborts the program inside \<^verbatim>\<open>strcpy\<close>: the fault
    \<open>Buffer_overflow\<close>, and no block is made;
  \<^item> a library that does not check writes the six bytes past the array into what
    follows it in the block. On the target the array lies at the offsets 4 to 36, three
    bytes of padding follow, and \<^verbatim>\<open>transactions\<close> starts at offset 40: the padding takes
    three of the zeros, and the \<^verbatim>\<open>sender\<close> of the first slot takes the last two and the
    terminator. The array then holds 33 zeros and no terminator, so the field read as a
    string gives the 38 zeros, and the \<^verbatim>\<open>sender\<close> of the first slot reads \<open>''00''\<close>.
  The parameter \<open>fortified\<close> says which of the two the library is. The statements after
  the copy write none of these bytes.
\<close>

definition create_genesis_block :: "bool \<Rightarrow> Block \<Rightarrow> int \<Rightarrow> fault + Block list" where
  "create_genesis_block fortified fresh now =
     (if fortified then Inl Buffer_overflow
      else Inr [calculate_block_hash
        (fresh\<lparr>index := 0,
               previous_hash := ''00000000000000000000000000000000000000'',
               transactions := (transactions fresh)
                 [0 := (transactions fresh ! 0)\<lparr>sender := ''00''\<rparr>],
               transaction_count := 0,
               timestamp := now\<rparr>)])"

subsection \<open>add\_block\<close>

text \<open>
  The loop that follows \<^verbatim>\<open>next\<close> to the last block. A null head is dereferenced by
  the loop condition: the result \<open>None\<close>.
\<close>

fun find_last :: "Block list \<Rightarrow> Block option" where
  "find_last [] = None"
| "find_last [last_block] = Some last_block"
| "find_last (current # nxt # rest) = find_last (nxt # rest)"

text \<open>
  Once \<^verbatim>\<open>last_block->next = new_block\<close> has run, the new block is the last block of
  the chain, and what the function does through the pointer \<^verbatim>\<open>new_block\<close> changes the
  chain there.
\<close>

fun on_last :: "(Block \<Rightarrow> Block) \<Rightarrow> Block list \<Rightarrow> Block list" where
  "on_last f [] = []"
| "on_last f [b] = [f b]"
| "on_last f (b # n # rest) = b # on_last f (n # rest)"

text \<open>
  \<open>add_block_trace\<close> lists the chain as it stands after each statement of
  \<^verbatim>\<open>add_block\<close> that changes it: the link of the new block, whose fields \<^verbatim>\<open>index\<close>,
  \<^verbatim>\<open>previous_hash\<close>, \<^verbatim>\<open>transaction_count\<close> and \<^verbatim>\<open>timestamp\<close> are set by then and
  whose other fields still hold what \<^verbatim>\<open>malloc\<close> returned; the two calls of
  \<^verbatim>\<open>add_transaction\<close>; the call of \<^verbatim>\<open>calculate_block_hash\<close>. The three readings of
  the clock are \<open>now\<close>, \<open>now1\<close> and \<open>now2\<close>. The sum \<^verbatim>\<open>last_block->index + 1\<close> is
  an \<^verbatim>\<open>int\<close>; past \<^verbatim>\<open>INT_MAX\<close> it is undefined, a fault here. The \<^verbatim>\<open>strcpy\<close> of this
  function copies \<^verbatim>\<open>current_hash\<close> into \<^verbatim>\<open>previous_hash\<close>, two arrays of one size, and
  does not overrun.
\<close>

definition add_block_trace ::
  "Block list \<Rightarrow> Block \<Rightarrow> int \<Rightarrow> int \<Rightarrow> int \<Rightarrow> fault + Block list list" where
  "add_block_trace blockchain fresh now now1 now2 =
     (case find_last blockchain of
        None \<Rightarrow> Inl Null_dereference
      | Some last_block \<Rightarrow>
          if INT_MAX < index last_block + 1 then Inl Signed_overflow
          else
            let new_block = fresh\<lparr>index := index last_block + 1,
                                   previous_hash := current_hash last_block,
                                   transaction_count := 0,
                                   timestamp := now\<rparr>;
                linked = blockchain @ [new_block];
                seeded1 = on_last (\<lambda>b. snd (add_transaction b ''Alice'' ''Bob'' 1.5 now1)) linked;
                seeded2 =
                  on_last (\<lambda>b. snd (add_transaction b ''Charlie'' ''Dave'' 0.75 now2)) seeded1;
                hashed = on_last calculate_block_hash seeded2
            in Inr [linked, seeded1, seeded2, hashed])"

definition add_block ::
  "Block list \<Rightarrow> Block \<Rightarrow> int \<Rightarrow> int \<Rightarrow> int \<Rightarrow> fault + Block list" where
  "add_block blockchain fresh now now1 now2 =
     (case add_block_trace blockchain fresh now now1 now2 of
        Inl f \<Rightarrow> Inl f
      | Inr states \<Rightarrow> Inr (last states))"

subsection \<open>verify\_blockchain\<close>

text \<open>
  The result is the pair of the block number printed in the warning, if a warning is
  printed, and the value returned: 1 for a valid chain, 0 otherwise.
\<close>

fun verify_blockchain :: "Block list \<Rightarrow> int option \<times> int" where
  "verify_blockchain [] = (None, 1)"
| "verify_blockchain [current] = (None, 1)"
| "verify_blockchain (current # nxt # rest) =
     (if previous_hash nxt \<noteq> current_hash current then (Some (index nxt), 0)
      else verify_blockchain (nxt # rest))"

subsection \<open>Chains built by the program\<close>

text \<open>
  A run that creates the genesis block and then calls \<^verbatim>\<open>add_block\<close> any number of
  times, as \<^verbatim>\<open>main\<close> does three times. Each call gets from its environment the fresh
  memory and its three readings of the clock; a fault ends the run, so that with a
  library that checks the copy of the zeros no chain is built. (\<^verbatim>\<open>main\<close> itself
  then calls \<^verbatim>\<open>verify_blockchain(&blockchain)\<close>, with the address of its head pointer
  where the head pointer is expected; what follows is about the function applied to the
  chain.)
\<close>

fun add_blocks ::
  "Block list \<Rightarrow> (Block \<times> int \<times> int \<times> int) list \<Rightarrow> fault + Block list" where
  "add_blocks blockchain [] = Inr blockchain"
| "add_blocks blockchain ((fresh, now, now1, now2) # calls) =
     (case add_block blockchain fresh now now1 now2 of
        Inl f \<Rightarrow> Inl f
      | Inr blockchain' \<Rightarrow> add_blocks blockchain' calls)"

definition build_chain ::
  "bool \<Rightarrow> Block \<Rightarrow> int \<Rightarrow> (Block \<times> int \<times> int \<times> int) list \<Rightarrow> fault + Block list"
  where
  "build_chain fortified fresh now calls =
     (case create_genesis_block fortified fresh now of
        Inl f \<Rightarrow> Inl f
      | Inr blockchain \<Rightarrow> add_blocks blockchain calls)"

text \<open>The fingerprint \<^verbatim>\<open>calculate_block_hash\<close> gives a block, and the chains all of whose
  adjacent blocks match.\<close>

definition fingerprint :: "Block \<Rightarrow> string" where
  "fingerprint block = current_hash (calculate_block_hash block)"

fun links_ok :: "Block list \<Rightarrow> bool" where
  "links_ok [] = True"
| "links_ok [current] = True"
| "links_ok (current # nxt # rest) =
     (previous_hash nxt = current_hash current \<and> links_ok (nxt # rest))"

subsection \<open>A run of the program\<close>

text \<open>
  A block of memory as \<^verbatim>\<open>malloc\<close> may return it, two calls of \<^verbatim>\<open>add_block\<close> with
  their readings of the clock, and the chain of three blocks the run ends with when the
  library does not check the copy.
\<close>

definition junk :: Transaction where
  "junk = \<lparr>sender = ''?'', receiver = ''?'', amount = 0, timestamp_tx = - 1\<rparr>"

definition fresh0 :: Block where
  "fresh0 = \<lparr>index = - 1, previous_hash = ''?'', transactions = replicate 10 junk,
              transaction_count = 77, timestamp = - 1, current_hash = ''?''\<rparr>"

definition demo_calls :: "(Block \<times> int \<times> int \<times> int) list" where
  "demo_calls =
     [(fresh0, 1770000001, 1770000001, 1770000002),
      (fresh0, 1770000003, 1770000003, 1770000003)]"

definition demo_genesis :: Block where
  "demo_genesis =
     fresh0\<lparr>index := 0, previous_hash := ''00000000000000000000000000000000000000'',
            transactions := (transactions fresh0)[0 := junk\<lparr>sender := ''00''\<rparr>],
            transaction_count := 0, timestamp := 1770000000,
            current_hash := ''a7d477fc309cc724''\<rparr>"

definition demo_block1 :: Block where
  "demo_block1 =
     fresh0\<lparr>index := 1, previous_hash := ''a7d477fc309cc724'',
            transactions := (transactions fresh0)
              [0 := \<lparr>sender = ''Alice'', receiver = ''Bob'', amount = 1.5,
                      timestamp_tx = 1770000001\<rparr>,
               1 := \<lparr>sender = ''Charlie'', receiver = ''Dave'', amount = 0.75,
                      timestamp_tx = 1770000002\<rparr>],
            transaction_count := 2, timestamp := 1770000001,
            current_hash := ''5883b7591222a30c''\<rparr>"

definition demo_block2 :: Block where
  "demo_block2 =
     fresh0\<lparr>index := 2, previous_hash := ''5883b7591222a30c'',
            transactions := (transactions fresh0)
              [0 := \<lparr>sender = ''Alice'', receiver = ''Bob'', amount = 1.5,
                      timestamp_tx = 1770000003\<rparr>,
               1 := \<lparr>sender = ''Charlie'', receiver = ''Dave'', amount = 0.75,
                      timestamp_tx = 1770000003\<rparr>],
            transaction_count := 2, timestamp := 1770000003,
            current_hash := ''88e0d23a48c7f96''\<rparr>"

definition demo_chain :: "Block list" where
  "demo_chain = [demo_genesis, demo_block1, demo_block2]"

text \<open>The same chain after the \<^verbatim>\<open>previous_hash\<close> of its third block was overwritten.\<close>

definition demo_tampered :: "Block list" where
  "demo_tampered = demo_chain[2 := demo_block2\<lparr>previous_hash := ''tampered''\<rparr>]"

text \<open>A block whose count says that its ten slots are taken.\<close>

definition demo_full :: Block where
  "demo_full = demo_block1\<lparr>transaction_count := 10\<rparr>"

text \<open>
  The new block of the first call of \<^verbatim>\<open>add_block\<close> in that run as it stands when it
  is linked, and after each of the two calls of \<^verbatim>\<open>add_transaction\<close>.
\<close>

definition demo_linked :: Block where
  "demo_linked =
     fresh0\<lparr>index := 1, previous_hash := ''a7d477fc309cc724'', transaction_count := 0,
            timestamp := 1770000001\<rparr>"

definition demo_seeded1 :: Block where
  "demo_seeded1 =
     demo_linked\<lparr>transactions := (transactions fresh0)
                    [0 := \<lparr>sender = ''Alice'', receiver = ''Bob'', amount = 1.5,
                            timestamp_tx = 1770000001\<rparr>],
                  transaction_count := 1\<rparr>"

definition demo_seeded2 :: Block where
  "demo_seeded2 =
     demo_seeded1\<lparr>transactions := (transactions demo_seeded1)
                    [1 := \<lparr>sender = ''Charlie'', receiver = ''Dave'', amount = 0.75,
                            timestamp_tx = 1770000002\<rparr>],
                   transaction_count := 2\<rparr>"

section \<open>Evaluation of the formatting functions\<close>

text \<open>
  The recursion equations of the digit functions rewrite any argument; they are replaced
  as simplification rules by their instances at numerals.
\<close>

declare dec_digits.simps [simp del]
declare hex_digits.simps [simp del]

lemma dec_digits_numeral [simp]:
  "dec_digits (numeral k) =
     (if numeral k < (10 :: nat) then [digit_char (numeral k)]
      else dec_digits (numeral k div 10) @ [digit_char (numeral k mod 10)])"
  by (subst dec_digits.simps) (rule refl)

lemma dec_digits_small [simp]:
  "dec_digits 0 = ''0''" "dec_digits 1 = ''1''" "dec_digits (Suc 0) = ''1''"
  by (simp_all add: dec_digits.simps digit_char_def)

lemma hex_digits_numeral [simp]:
  "hex_digits (numeral k) =
     (if numeral k < (16 :: nat) then [digit_char (numeral k)]
      else hex_digits (numeral k div 16) @ [digit_char (numeral k mod 16)])"
  by (subst hex_digits.simps) (rule refl)

lemma hex_digits_small [simp]:
  "hex_digits 0 = ''0''" "hex_digits 1 = ''1''" "hex_digits (Suc 0) = ''1''"
  by (simp_all add: hex_digits.simps digit_char_def)

section \<open>Basic facts\<close>

lemma find_last_eq: "find_last c = (if c = [] then None else Some (last c))"
  by (induction c rule: find_last.induct) simp_all

lemma on_last_snoc [simp]: "on_last f (c @ [b]) = c @ [f b]"
  by (induction f c rule: on_last.induct) simp_all

lemma calculate_block_hash_fields [simp]:
  "index (calculate_block_hash b) = index b"
  "previous_hash (calculate_block_hash b) = previous_hash b"
  "transactions (calculate_block_hash b) = transactions b"
  "transaction_count (calculate_block_hash b) = transaction_count b"
  "timestamp (calculate_block_hash b) = timestamp b"
  by (simp_all add: calculate_block_hash_def Let_def)

lemma calculate_block_hash_eq:
  "calculate_block_hash b = b\<lparr>current_hash := fingerprint b\<rparr>"
  by (simp add: fingerprint_def calculate_block_hash_def Let_def)

lemma fingerprint_eq:
  "fingerprint b =
     snprintf HASH_LENGTH (fmt_lx (simple_hash (snprintf 256
       (fmt_d (index b) @ previous_hash b @ fmt_d (timestamp b)))))"
  by (simp add: fingerprint_def calculate_block_hash_def Let_def)

lemma add_block_trace_eq:
  "add_block_trace c fresh now now1 now2 =
     (if c = [] then Inl Null_dereference
      else if INT_MAX \<le> index (last c) then Inl Signed_overflow
      else
        let b0 = fresh\<lparr>index := index (last c) + 1, previous_hash := current_hash (last c),
                        transaction_count := 0, timestamp := now\<rparr>;
            b1 = b0\<lparr>transactions := (transactions fresh)
                        [0 := \<lparr>sender = ''Alice'', receiver = ''Bob'', amount = 1.5,
                                timestamp_tx = now1\<rparr>],
                      transaction_count := 1\<rparr>;
            b2 = b1\<lparr>transactions := (transactions b1)
                        [1 := \<lparr>sender = ''Charlie'', receiver = ''Dave'', amount = 0.75,
                                timestamp_tx = now2\<rparr>],
                      transaction_count := 2\<rparr>
        in Inr [c @ [b0], c @ [b1], c @ [b2], c @ [calculate_block_hash b2]])"
  by (cases fresh)
    (simp add: add_block_trace_def find_last_eq add_transaction_def MAX_TRANSACTIONS_def
      snprintf_def Let_def numeral_2_eq_2)

lemma add_block_eq:
  "add_block c fresh now now1 now2 =
     (if c = [] then Inl Null_dereference
      else if INT_MAX \<le> index (last c) then Inl Signed_overflow
      else Inr (c @ [calculate_block_hash
        (fresh\<lparr>index := index (last c) + 1, previous_hash := current_hash (last c),
                transactions := (transactions fresh)
                  [0 := \<lparr>sender = ''Alice'', receiver = ''Bob'', amount = 1.5,
                          timestamp_tx = now1\<rparr>,
                   1 := \<lparr>sender = ''Charlie'', receiver = ''Dave'', amount = 0.75,
                          timestamp_tx = now2\<rparr>],
                transaction_count := 2, timestamp := now\<rparr>)]))"
  by (cases fresh) (simp add: add_block_def add_block_trace_eq Let_def)

lemma verify_links_ok: "verify_blockchain c = (None, 1) \<longleftrightarrow> links_ok c"
  by (induction c rule: verify_blockchain.induct) simp_all

lemma links_ok_snoc:
  "links_ok (c @ [b]) \<longleftrightarrow> links_ok c \<and> (c = [] \<or> previous_hash b = current_hash (last c))"
  by (induction c rule: links_ok.induct) auto

lemma add_blocks_invariant:
  assumes "add_blocks c calls = Inr c'" and "P c"
    and "\<And>c fresh now now1 now2 c'. P c \<Longrightarrow> add_block c fresh now now1 now2 = Inr c' \<Longrightarrow> P c'"
  shows "P c'"
  using assms(1,2)
proof (induction c calls rule: add_blocks.induct)
  case (1 blockchain)
  then show ?case by simp
next
  case (2 blockchain fresh now now1 now2 calls)
  then show ?case
    by (auto split: sum.splits intro: assms(3))
qed

lemma add_block_links_ok:
  assumes "links_ok c" and "add_block c fresh now now1 now2 = Inr c'"
  shows "links_ok c'"
  using assms
  by (auto simp: add_block_eq links_ok_snoc split: if_splits)

lemma build_chain_start:
  assumes "build_chain fortified fresh now calls = Inr c"
  obtains g where "create_genesis_block fortified fresh now = Inr [g]"
    and "add_blocks [g] calls = Inr c"
    and "index g = 0" and "current_hash g = fingerprint g"
proof (cases fortified)
  case True
  with assms show ?thesis
    by (simp add: build_chain_def create_genesis_block_def)
next
  case False
  define g where "g = calculate_block_hash
    (fresh\<lparr>index := 0, previous_hash := ''00000000000000000000000000000000000000'',
           transactions := (transactions fresh)[0 := (transactions fresh ! 0)\<lparr>sender := ''00''\<rparr>],
           transaction_count := 0, timestamp := now\<rparr>)"
  from False have start: "create_genesis_block fortified fresh now = Inr [g]"
    by (simp add: create_genesis_block_def g_def)
  with assms have "add_blocks [g] calls = Inr c"
    by (simp add: build_chain_def)
  moreover have "index g = 0" "current_hash g = fingerprint g"
    by (simp_all add: g_def calculate_block_hash_eq fingerprint_eq)
  ultimately show ?thesis
    using start that by blast
qed

section \<open>The run evaluated\<close>

lemmas eval_simps =
  calculate_block_hash_eq fingerprint_eq snprintf_def fmt_d_def fmt_lx_def simple_hash_def
  char_value_def HASH_LENGTH_def INT_MAX_def digit_char_def

lemma demo_create: "create_genesis_block False fresh0 1770000000 = Inr [demo_genesis]"
  by (simp add: create_genesis_block_def demo_genesis_def fresh0_def eval_simps)

lemma demo_add1:
  "add_block [demo_genesis] fresh0 1770000001 1770000001 1770000002 =
     Inr [demo_genesis, demo_block1]"
  by (simp add: add_block_eq demo_genesis_def demo_block1_def fresh0_def eval_simps)

lemma demo_add2:
  "add_block [demo_genesis, demo_block1] fresh0 1770000003 1770000003 1770000003 =
     Inr demo_chain"
  by (simp add: add_block_eq demo_chain_def demo_block1_def demo_block2_def fresh0_def
      eval_simps)

lemma demo_run1:
  "build_chain False fresh0 1770000000 [(fresh0, 1770000001, 1770000001, 1770000002)] =
     Inr [demo_genesis, demo_block1]"
  by (simp add: build_chain_def demo_create demo_add1)

lemma demo_run: "build_chain False fresh0 1770000000 demo_calls = Inr demo_chain"
  by (simp add: build_chain_def demo_calls_def demo_create demo_add1 demo_add2)

section \<open>Verification of built chains\<close>

text \<open>
  C1. Every chain that \<^verbatim>\<open>create_genesis_block\<close> followed by any number of calls of
  \<^verbatim>\<open>add_block\<close> builds, with nothing else writing to it, is found valid by
  \<^verbatim>\<open>verify_blockchain\<close>: it returns 1 and prints no warning.
\<close>

theorem built_chain_verifies:
  assumes "build_chain fortified fresh now calls = Inr c"
  shows "verify_blockchain c = (None, 1)"
proof -
  from assms obtain g where "add_blocks [g] calls = Inr c"
    by (rule build_chain_start)
  then have "links_ok c"
  proof (rule add_blocks_invariant [where P = links_ok])
    show "links_ok [g]"
      by simp
  qed (rule add_block_links_ok)
  then show ?thesis
    by (simp add: verify_links_ok)
qed

theorem built_chain_verifies_witness:
  "build_chain False fresh0 1770000000 demo_calls = Inr demo_chain
   \<and> verify_blockchain demo_chain = (None, 1)"
  using demo_run built_chain_verifies [OF demo_run] by simp

lemma verify_at_first_mismatch:
  assumes "Suc i < length c"
    and "previous_hash (c ! Suc i) \<noteq> current_hash (c ! i)"
    and "\<forall>j<i. previous_hash (c ! Suc j) = current_hash (c ! j)"
  shows "verify_blockchain c = (Some (index (c ! Suc i)), 0)"
  using assms
proof (induction c arbitrary: i rule: verify_blockchain.induct)
  case 1
  then show ?case by simp
next
  case (2 current)
  then show ?case by simp
next
  case (3 current nxt rest)
  show ?case
  proof (cases i)
    case 0
    with "3.prems" show ?thesis by simp
  next
    case (Suc k)
    with "3.prems" have first: "previous_hash nxt = current_hash current"
      by auto
    have "verify_blockchain (nxt # rest) = (Some (index ((nxt # rest) ! Suc k)), 0)"
    proof (rule "3.IH")
      show "\<not> previous_hash nxt \<noteq> current_hash current"
        using first by simp
      show "Suc k < length (nxt # rest)"
        using "3.prems"(1) Suc by simp
      show "previous_hash ((nxt # rest) ! Suc k) \<noteq> current_hash ((nxt # rest) ! k)"
        using "3.prems"(2) Suc by simp
      show "\<forall>j<k. previous_hash ((nxt # rest) ! Suc j) = current_hash ((nxt # rest) ! j)"
      proof (intro allI impI)
        fix j assume "j < k"
        then have "Suc j < i" using Suc by simp
        with "3.prems"(3) have "previous_hash ((current # nxt # rest) ! Suc (Suc j)) =
          current_hash ((current # nxt # rest) ! Suc j)"
          by blast
        then show "previous_hash ((nxt # rest) ! Suc j) = current_hash ((nxt # rest) ! j)"
          by simp
      qed
    qed
    with first Suc show ?thesis by simp
  qed
qed

text \<open>
  C2. In a chain where some block after the first has a \<^verbatim>\<open>previous_hash\<close> different
  from the \<^verbatim>\<open>current_hash\<close> of its predecessor, \<^verbatim>\<open>verify_blockchain\<close> returns 0 and
  the warning names the \<^verbatim>\<open>index\<close> of the first such block from the head: the block at
  position \<open>Suc i\<close>, where \<open>i\<close> is the first position whose successor does not match
  (the overwritten block itself when the links before it are intact).
\<close>

theorem first_mismatch_reported:
  assumes "Suc k < length c"
    and "previous_hash (c ! Suc k) \<noteq> current_hash (c ! k)"
  shows "\<exists>i\<le>k. previous_hash (c ! Suc i) \<noteq> current_hash (c ! i)
    \<and> (\<forall>j<i. previous_hash (c ! Suc j) = current_hash (c ! j))
    \<and> verify_blockchain c = (Some (index (c ! Suc i)), 0)"
proof -
  define P where "P i \<longleftrightarrow> previous_hash (c ! Suc i) \<noteq> current_hash (c ! i)" for i
  define i where "i = (LEAST i. P i)"
  from assms(2) have "P k"
    by (simp add: P_def)
  then have "P i" and le: "i \<le> k"
    unfolding i_def by (rule LeastI, rule Least_le)
  have before: "\<forall>j<i. previous_hash (c ! Suc j) = current_hash (c ! j)"
  proof (intro allI impI)
    fix j assume "j < i"
    then have "\<not> P j"
      unfolding i_def by (rule not_less_Least)
    then show "previous_hash (c ! Suc j) = current_hash (c ! j)"
      by (simp add: P_def)
  qed
  from le assms(1) have "Suc i < length c"
    by simp
  moreover from \<open>P i\<close> have mismatch: "previous_hash (c ! Suc i) \<noteq> current_hash (c ! i)"
    by (simp add: P_def)
  ultimately have "verify_blockchain c = (Some (index (c ! Suc i)), 0)"
    using before by (rule verify_at_first_mismatch)
  with le mismatch before show ?thesis
    by blast
qed

theorem first_mismatch_reported_witness:
  "Suc 1 < length demo_tampered
   \<and> previous_hash (demo_tampered ! Suc 1) \<noteq> current_hash (demo_tampered ! 1)
   \<and> previous_hash (demo_tampered ! Suc 0) = current_hash (demo_tampered ! 0)
   \<and> index (demo_tampered ! Suc 1) = 2
   \<and> verify_blockchain demo_tampered = (Some 2, 0)"
proof -
  have h1: "Suc 1 < length demo_tampered"
    by (simp add: demo_tampered_def demo_chain_def)
  have h2: "previous_hash (demo_tampered ! Suc 1) \<noteq> current_hash (demo_tampered ! 1)"
    by (simp add: demo_tampered_def demo_chain_def demo_block1_def)
  have h0: "previous_hash (demo_tampered ! Suc 0) = current_hash (demo_tampered ! 0)"
    by (simp add: demo_tampered_def demo_chain_def demo_block1_def demo_genesis_def)
  have idx: "index (demo_tampered ! Suc 1) = 2"
    by (simp add: demo_tampered_def demo_chain_def demo_block2_def)
  from first_mismatch_reported [OF h1 h2] obtain i where
    "i \<le> 1" and "previous_hash (demo_tampered ! Suc i) \<noteq> current_hash (demo_tampered ! i)"
    and v: "verify_blockchain demo_tampered = (Some (index (demo_tampered ! Suc i)), 0)"
    by blast
  with h0 have "i = 1"
    by (cases i) auto
  with v idx have "verify_blockchain demo_tampered = (Some 2, 0)"
    by simp
  with h1 h2 h0 idx show ?thesis
    by simp
qed

text \<open>
  C10. \<^verbatim>\<open>verify_blockchain\<close> finds every chain of fewer than two blocks valid: the null
  chain, and a chain of one block whatever its fields hold, since no pair of adjacent
  blocks is there to compare.
\<close>

theorem short_chains_valid:
  "verify_blockchain [] = (None, 1) \<and> verify_blockchain [b] = (None, 1)"
  by simp

section \<open>The fingerprint\<close>

text \<open>
  C4. The text \<^verbatim>\<open>calculate_block_hash\<close> stores depends on the fields \<^verbatim>\<open>index\<close>,
  \<^verbatim>\<open>previous_hash\<close> and \<^verbatim>\<open>timestamp\<close> only: two blocks that agree on the three get
  the same \<^verbatim>\<open>current_hash\<close>, whatever their transactions and other fields are, and
  the call changes nothing else in the block.
\<close>

theorem fingerprint_of_three_fields:
  assumes "index a = index b"
    and "previous_hash a = previous_hash b"
    and "timestamp a = timestamp b"
  shows "current_hash (calculate_block_hash a) = current_hash (calculate_block_hash b)
    \<and> calculate_block_hash a = a\<lparr>current_hash := current_hash (calculate_block_hash b)\<rparr>"
  using assms by (simp add: calculate_block_hash_def Let_def)

theorem fingerprint_of_three_fields_witness:
  "index demo_block1 = index (fresh0\<lparr>index := 1, previous_hash := ''a7d477fc309cc724'', timestamp := 1770000001\<rparr>)
   \<and> previous_hash demo_block1 = previous_hash (fresh0\<lparr>index := 1, previous_hash := ''a7d477fc309cc724'', timestamp := 1770000001\<rparr>)
   \<and> timestamp demo_block1 = timestamp (fresh0\<lparr>index := 1, previous_hash := ''a7d477fc309cc724'', timestamp := 1770000001\<rparr>)
   \<and> transactions demo_block1 \<noteq> transactions (fresh0\<lparr>index := 1, previous_hash := ''a7d477fc309cc724'', timestamp := 1770000001\<rparr>)
   \<and> current_hash (calculate_block_hash demo_block1) =
       current_hash (calculate_block_hash (fresh0\<lparr>index := 1, previous_hash := ''a7d477fc309cc724'', timestamp := 1770000001\<rparr>))"
proof -
  let ?b = "fresh0\<lparr>index := 1, previous_hash := ''a7d477fc309cc724'', timestamp := 1770000001\<rparr>"
  have h1: "index demo_block1 = index ?b"
    by (simp add: demo_block1_def)
  have h2: "previous_hash demo_block1 = previous_hash ?b"
    by (simp add: demo_block1_def)
  have h3: "timestamp demo_block1 = timestamp ?b"
    by (simp add: demo_block1_def)
  have h4: "transactions demo_block1 \<noteq> transactions ?b"
    by (simp add: demo_block1_def fresh0_def junk_def eval_nat_numeral)
  from fingerprint_of_three_fields [OF h1 h2 h3] h1 h2 h3 h4 show ?thesis
    by simp
qed

section \<open>The capacity of a block\<close>

text \<open>
  C3. \<^verbatim>\<open>add_transaction\<close> stores the transaction exactly when \<^verbatim>\<open>transaction_count\<close>
  is below 10, and reports accordingly: below 10 it prints that the transaction was
  added, writes it to the slot \<^verbatim>\<open>transactions[transaction_count]\<close> and increments the
  count; from 10 on it prints that the block is full and leaves the whole block as it
  was, the count of a full block staying 10. A count of at most 10 is never taken beyond
  10.
\<close>

theorem add_transaction_capacity:
  "((fst (add_transaction b s r a now) = Transaction_added s r a) = (transaction_count b < 10))
   \<and> ((fst (add_transaction b s r a now) = Block_full) = (\<not> transaction_count b < 10))
   \<and> (transaction_count b < 10 \<longrightarrow>
        snd (add_transaction b s r a now) =
          b\<lparr>transactions := (transactions b)
               [transaction_count b :=
                  \<lparr>sender = take 63 s, receiver = take 63 r, amount = a, timestamp_tx = now\<rparr>],
            transaction_count := transaction_count b + 1\<rparr>)
   \<and> (transaction_count b < 10 \<and> length (transactions b) = 10 \<longrightarrow>
        transactions (snd (add_transaction b s r a now)) ! transaction_count b =
          \<lparr>sender = take 63 s, receiver = take 63 r, amount = a, timestamp_tx = now\<rparr>)
   \<and> (\<not> transaction_count b < 10 \<longrightarrow> snd (add_transaction b s r a now) = b)
   \<and> (transaction_count b = 10 \<longrightarrow> transaction_count (snd (add_transaction b s r a now)) = 10)
   \<and> (transaction_count b \<le> 10 \<longrightarrow>
        transaction_count (snd (add_transaction b s r a now)) \<le> 10)"
  by (simp add: add_transaction_def MAX_TRANSACTIONS_def snprintf_def Let_def)

theorem add_transaction_capacity_witness:
  "transaction_count demo_block1 < 10 \<and> length (transactions demo_block1) = 10
   \<and> add_transaction demo_block1 ''Erin'' ''Frank'' 2 1770000002 =
       (Transaction_added ''Erin'' ''Frank'' 2,
        demo_block1\<lparr>transactions := (transactions demo_block1)
            [2 := \<lparr>sender = ''Erin'', receiver = ''Frank'', amount = 2, timestamp_tx = 1770000002\<rparr>],
          transaction_count := 3\<rparr>)
   \<and> transactions (snd (add_transaction demo_block1 ''Erin'' ''Frank'' 2 1770000002)) ! 2 =
       \<lparr>sender = ''Erin'', receiver = ''Frank'', amount = 2, timestamp_tx = 1770000002\<rparr>
   \<and> transaction_count demo_full = 10
   \<and> add_transaction demo_full ''Erin'' ''Frank'' 2 1770000002 = (Block_full, demo_full)"
proof -
  have c1: "transaction_count demo_block1 = 2"
    by (simp add: demo_block1_def)
  have l1: "length (transactions demo_block1) = 10"
    by (simp add: demo_block1_def fresh0_def)
  have c2: "transaction_count demo_full = 10"
    by (simp add: demo_full_def)
  note ok = add_transaction_capacity [of demo_block1 "''Erin''" "''Frank''" 2 1770000002]
  note full = add_transaction_capacity [of demo_full "''Erin''" "''Frank''" 2 1770000002]
  have "add_transaction demo_block1 ''Erin'' ''Frank'' 2 1770000002 =
       (Transaction_added ''Erin'' ''Frank'' 2,
        demo_block1\<lparr>transactions := (transactions demo_block1)
            [2 := \<lparr>sender = ''Erin'', receiver = ''Frank'', amount = 2, timestamp_tx = 1770000002\<rparr>],
          transaction_count := 3\<rparr>)"
    using ok c1 by (simp add: prod_eq_iff)
  moreover have "transactions (snd (add_transaction demo_block1 ''Erin'' ''Frank'' 2 1770000002)) ! 2 =
       \<lparr>sender = ''Erin'', receiver = ''Frank'', amount = 2, timestamp_tx = 1770000002\<rparr>"
    using ok c1 l1 by simp
  moreover have "add_transaction demo_full ''Erin'' ''Frank'' 2 1770000002 = (Block_full, demo_full)"
    using full c2 by (simp add: prod_eq_iff)
  ultimately show ?thesis
    using c1 l1 c2 by simp
qed

section \<open>Invariants of built chains\<close>

lemma add_blocks_length:
  "add_blocks c calls = Inr c' \<Longrightarrow> length c' = length c + length calls"
proof (induction c calls rule: add_blocks.induct)
  case (1 blockchain)
  then show ?case by simp
next
  case (2 blockchain fresh now now1 now2 calls)
  then show ?case
    by (auto simp: add_block_eq split: sum.splits if_splits)
qed

lemma add_block_indices:
  assumes "c \<noteq> [] \<and> map index c = map int [0..<length c]"
    and "add_block c fresh now now1 now2 = Inr c'"
  shows "c' \<noteq> [] \<and> map index c' = map int [0..<length c']"
proof -
  from assms(1) have ne: "c \<noteq> []" and idx: "map index c = map int [0..<length c]"
    by simp_all
  from ne have "index (last c) = last (map index c)"
    by (simp add: last_map)
  also have "\<dots> = last (map int [0..<length c])"
    by (simp only: idx)
  also from ne have "\<dots> = int (last [0..<length c])"
    by (simp add: last_map)
  also from ne have "\<dots> = int (length c - 1)"
    by (simp add: last_upt)
  finally have "index (last c) + 1 = int (length c)"
    using ne by (simp add: of_nat_diff Suc_leI)
  with ne idx assms(2) show ?thesis
    by (auto simp: add_block_eq split: if_splits)
qed

lemma add_block_hd:
  assumes "c \<noteq> [] \<and> hd c = g" and "add_block c fresh now now1 now2 = Inr c'"
  shows "c' \<noteq> [] \<and> hd c' = g"
  using assms by (auto simp: add_block_eq split: if_splits)

lemma build_chain_indices:
  assumes "build_chain fortified fresh now calls = Inr c"
  shows "c \<noteq> [] \<and> map index c = map int [0..<length c]"
proof -
  from assms obtain g where run: "add_blocks [g] calls = Inr c" and "index g = 0"
    by (rule build_chain_start)
  from run show ?thesis
  proof (rule add_blocks_invariant
      [where P = "\<lambda>c. c \<noteq> [] \<and> map index c = map int [0..<length c]"])
    show "[g] \<noteq> [] \<and> map index [g] = map int [0..<length [g]]"
      using \<open>index g = 0\<close> by simp
  qed (rule add_block_indices)
qed

lemma build_chain_hd:
  assumes "build_chain fortified fresh now calls = Inr c"
  shows "c \<noteq> [] \<and> create_genesis_block fortified fresh now = Inr [hd c]"
proof -
  from assms obtain g where run: "add_blocks [g] calls = Inr c"
    and start: "create_genesis_block fortified fresh now = Inr [g]"
    by (rule build_chain_start)
  from run have "c \<noteq> [] \<and> hd c = g"
  proof (rule add_blocks_invariant [where P = "\<lambda>c. c \<noteq> [] \<and> hd c = g"])
    show "[g] \<noteq> [] \<and> hd [g] = g"
      by simp
  qed (rule add_block_hd)
  with start show ?thesis
    by simp
qed

lemma build_chain_length:
  assumes "build_chain fortified fresh now calls = Inr c"
  shows "length c = Suc (length calls)"
proof -
  from assms obtain g where "add_blocks [g] calls = Inr c"
    by (rule build_chain_start)
  then show ?thesis
    by (simp add: add_blocks_length)
qed

lemma fingerprint_calculate [simp]:
  "fingerprint (calculate_block_hash b) = fingerprint b"
  by (simp add: fingerprint_eq)

section \<open>The genesis block and the indices\<close>

text \<open>
  The string of zeros is six characters longer than the \<^verbatim>\<open>HASH_LENGTH\<close> characters the
  field has room for before its terminator, and its last two characters are the ones that
  land in the first transaction slot. Every other string the program stores in a hash
  field is a fingerprint, of at most 16 characters.
\<close>

lemma genesis_literal_overrun:
  "length ''00000000000000000000000000000000000000'' = HASH_LENGTH + 6
   \<and> drop (HASH_LENGTH + 1 + 3) ''00000000000000000000000000000000000000'' = ''00''"
  by (simp add: HASH_LENGTH_def)

text \<open>
  Where the library does not check the copy, the block made has \<^verbatim>\<open>index\<close> 0, count 0,
  the time of its creation and its fingerprint, its \<^verbatim>\<open>previous_hash\<close> reads as the 38
  zeros, it stays the head of every chain built from it, and no other block of such a
  chain has \<^verbatim>\<open>index\<close> 0.
\<close>

lemma built_chain_head:
  assumes "build_chain fortified fresh now calls = Inr c"
  shows "\<not> fortified \<and> c \<noteq> [] \<and> create_genesis_block fortified fresh now = Inr [hd c]
    \<and> index (hd c) = 0
    \<and> previous_hash (hd c) = replicate 38 (CHR ''0'')
    \<and> transaction_count (hd c) = 0
    \<and> timestamp (hd c) = now
    \<and> current_hash (hd c) = fingerprint (hd c)
    \<and> (\<forall>i<length c. (index (c ! i) = 0) = (i = 0))"
proof -
  from assms have hd: "c \<noteq> []" "create_genesis_block fortified fresh now = Inr [hd c]"
    using build_chain_hd by blast+
  from hd(2) have nf: "\<not> fortified"
    by (auto simp: create_genesis_block_def split: if_splits)
  have zeros: "replicate 38 (CHR ''0'') = ''00000000000000000000000000000000000000''"
    by (simp add: eval_nat_numeral)
  from hd(2) nf have "hd c = calculate_block_hash
    (fresh\<lparr>index := 0, previous_hash := ''00000000000000000000000000000000000000'',
           transactions := (transactions fresh)[0 := (transactions fresh ! 0)\<lparr>sender := ''00''\<rparr>],
           transaction_count := 0, timestamp := now\<rparr>)"
    by (simp add: create_genesis_block_def)
  then have fields: "index (hd c) = 0"
    "previous_hash (hd c) = replicate 38 (CHR ''0'')" "transaction_count (hd c) = 0"
    "timestamp (hd c) = now" "current_hash (hd c) = fingerprint (hd c)"
    unfolding zeros
    by (simp_all add: calculate_block_hash_eq fingerprint_eq)
  have "(index (c ! i) = 0) = (i = 0)" if "i < length c" for i
  proof -
    from assms have "map index c ! i = map int [0..<length c] ! i"
      using build_chain_indices by simp
    with that have "index (c ! i) = int i"
      by simp
    then show ?thesis by simp
  qed
  with hd nf fields show ?thesis
    by blast
qed

text \<open>
  C7. The claim wants every genesis block to hold the string of zeros in its
  \<^verbatim>\<open>previous_hash\<close>. \<^verbatim>\<open>create_genesis_block\<close> copies 38 zeros and a terminator into the
  33 bytes of the field. Where the library checks the copy the call ends in the fault and
  makes no block. Where it does not, the block comes out with a string of 38 characters
  read from a field that holds 32, and with the \<^verbatim>\<open>sender\<close> of its first transaction slot
  changed from what the fresh memory held to the last two zeros.
\<close>

theorem genesis_sentinel_overrun:
  "create_genesis_block True fresh0 1770000000 = Inl Buffer_overflow
   \<and> create_genesis_block False fresh0 1770000000 = Inr [demo_genesis]
   \<and> length (previous_hash demo_genesis) = 38
   \<and> HASH_LENGTH = 32
   \<and> sender (transactions fresh0 ! 0) = ''?''
   \<and> sender (transactions demo_genesis ! 0) = ''00''"
proof -
  have "create_genesis_block True fresh0 1770000000 = Inl Buffer_overflow"
    by (simp add: create_genesis_block_def)
  moreover have "length (previous_hash demo_genesis) = 38"
    by (simp add: demo_genesis_def)
  moreover have "sender (transactions fresh0 ! 0) = ''?''"
    "sender (transactions demo_genesis ! 0) = ''00''"
    by (simp_all add: demo_genesis_def fresh0_def junk_def)
  ultimately show ?thesis
    using demo_create by (simp add: HASH_LENGTH_def)
qed

text \<open>
  C8. In a chain built from the genesis block by calls of \<^verbatim>\<open>add_block\<close> the block at
  position \<open>i\<close> has \<^verbatim>\<open>index\<close> \<open>i\<close>: the indices are 0, 1, ..., n - 1 in the order
  of traversal, none is negative, and a further call of \<^verbatim>\<open>add_block\<close> extends the
  chain by one block and keeps the property.
\<close>

theorem chain_indices:
  assumes "build_chain fortified fresh now calls = Inr c"
  shows "map index c = map int [0..<length c]
    \<and> length c = Suc (length calls)
    \<and> (\<forall>b \<in> set c. 0 \<le> index b)
    \<and> (\<forall>fresh' now' now1 now2 c'. add_block c fresh' now' now1 now2 = Inr c' \<longrightarrow>
          length c' = Suc (length c) \<and> map index c' = map int [0..<length c'])"
proof -
  from assms have inv: "c \<noteq> [] \<and> map index c = map int [0..<length c]"
    by (rule build_chain_indices)
  have "0 \<le> index b" if "b \<in> set c" for b
  proof -
    from that have "index b \<in> set (map index c)" by simp
    with inv have "index b \<in> set (map int [0..<length c])" by simp
    then show ?thesis by auto
  qed
  moreover have "length c' = Suc (length c) \<and> map index c' = map int [0..<length c']"
    if "add_block c fresh' now' now1 now2 = Inr c'" for fresh' now' now1 now2 c'
  proof
    from that show "length c' = Suc (length c)"
      by (auto simp: add_block_eq split: if_splits)
    from inv that show "map index c' = map int [0..<length c']"
      using add_block_indices by blast
  qed
  ultimately show ?thesis
    using inv build_chain_length [OF assms] by blast
qed

theorem chain_indices_witness:
  "build_chain False fresh0 1770000000 [(fresh0, 1770000001, 1770000001, 1770000002)] =
     Inr [demo_genesis, demo_block1]
   \<and> add_block [demo_genesis, demo_block1] fresh0 1770000003 1770000003 1770000003 =
     Inr demo_chain
   \<and> map index [demo_genesis, demo_block1] = [0, 1]
   \<and> map index demo_chain = [0, 1, 2]"
proof -
  note i = chain_indices [OF demo_run1]
  from i have "map index [demo_genesis, demo_block1] = [0, 1]"
    by (simp add: upt_rec)
  moreover from i demo_add2 have "map index demo_chain = map int [0..<length demo_chain]"
    by blast
  then have "map index demo_chain = [0, 1, 2]"
    by (simp add: demo_chain_def upt_rec)
  ultimately show ?thesis
    using demo_run1 demo_add2 by simp
qed

section \<open>The text of a fingerprint\<close>

lemma digit_char_hex: "d < 16 \<Longrightarrow> digit_char d \<in> set ''0123456789abcdef''"
  unfolding digit_char_def by (rule nth_mem) simp

lemma hex_digits_set: "set (hex_digits n) \<subseteq> set ''0123456789abcdef''"
proof (induction n rule: hex_digits.induct)
  case (1 n)
  show ?case
  proof (cases "n < 16")
    case True
    then have "hex_digits n = [digit_char n]"
      by (subst hex_digits.simps) simp
    with True digit_char_hex [of n] show ?thesis
      by simp
  next
    case False
    then have eq: "hex_digits n = hex_digits (n div 16) @ [digit_char (n mod 16)]"
      by (subst hex_digits.simps) simp
    have "digit_char (n mod 16) \<in> set ''0123456789abcdef''"
      by (rule digit_char_hex) simp
    with "1.IH" [OF False] show ?thesis
      unfolding eq by simp
  qed
qed

lemma digit_char_nonzero:
  assumes "0 < d" and "d < 16"
  shows "digit_char d \<noteq> CHR ''0''"
proof
  assume "digit_char d = CHR ''0''"
  then have same: "''0123456789abcdef'' ! d = ''0123456789abcdef'' ! 0"
    by (simp add: digit_char_def)
  have "(''0123456789abcdef'' ! d = ''0123456789abcdef'' ! 0) = (d = 0)"
  proof (rule nth_eq_iff_index_eq)
    show "distinct ''0123456789abcdef''"
      by simp
    show "d < length ''0123456789abcdef''"
      using assms(2) by simp
    show "0 < length ''0123456789abcdef''"
      by simp
  qed
  with same assms(1) show False
    by simp
qed

lemma hex_digits_hd: "0 < n \<Longrightarrow> hd (hex_digits n) \<noteq> CHR ''0''"
proof (induction n rule: hex_digits.induct)
  case (1 n)
  show ?case
  proof (cases "n < 16")
    case True
    then have "hex_digits n = [digit_char n]"
      by (subst hex_digits.simps) simp
    with True "1.prems" digit_char_nonzero [of n] show ?thesis
      by simp
  next
    case False
    then have eq: "hex_digits n = hex_digits (n div 16) @ [digit_char (n mod 16)]"
      by (subst hex_digits.simps) simp
    from False have "0 < n div 16"
      by (simp add: div_greater_zero_iff)
    with "1.IH" [OF False] have "hd (hex_digits (n div 16)) \<noteq> CHR ''0''"
      by simp
    moreover have "hex_digits (n div 16) \<noteq> []"
      by (subst hex_digits.simps) simp
    ultimately show ?thesis
      unfolding eq by simp
  qed
qed

lemma hex_digits_nonempty: "hex_digits n \<noteq> []"
  by (subst hex_digits.simps) simp

lemma hex_digits_length: "n < 16 ^ Suc k \<Longrightarrow> length (hex_digits n) \<le> Suc k"
proof (induction k arbitrary: n)
  case 0
  then have "hex_digits n = [digit_char n]"
    by (subst hex_digits.simps) simp
  then show ?case by simp
next
  case (Suc k)
  show ?case
  proof (cases "n < 16")
    case True
    then have "hex_digits n = [digit_char n]"
      by (subst hex_digits.simps) simp
    then show ?thesis by simp
  next
    case False
    then have eq: "hex_digits n = hex_digits (n div 16) @ [digit_char (n mod 16)]"
      by (subst hex_digits.simps) simp
    from Suc.prems have "n div 16 < 16 ^ Suc k"
      by (simp add: less_mult_imp_div_less)
    then have "length (hex_digits (n div 16)) \<le> Suc k"
      by (rule Suc.IH)
    then show ?thesis
      unfolding eq by simp
  qed
qed

lemma fmt_lx_length: "length (fmt_lx w) \<le> 16"
proof -
  have "unat w < 2 ^ 64"
    using unsigned_less [of w, where 'a = nat] by simp
  then have "unat w < 16 ^ Suc 15"
    by simp
  then have "length (hex_digits (unat w)) \<le> Suc 15"
    by (rule hex_digits_length)
  then show ?thesis
    by (simp add: fmt_lx_def)
qed

lemma fingerprint_fmt_lx:
  "fingerprint b =
     fmt_lx (simple_hash (snprintf 256
       (fmt_d (index b) @ previous_hash b @ fmt_d (timestamp b))))"
proof -
  have "length (fmt_lx w) \<le> 31" for w
    using fmt_lx_length [of w] by simp
  then show ?thesis
    by (simp add: fingerprint_eq HASH_LENGTH_def snprintf_def [of 32])
qed

lemma demo_hashes:
  "current_hash (calculate_block_hash demo_block1) = ''5883b7591222a30c''"
  "current_hash (calculate_block_hash demo_block2) = ''88e0d23a48c7f96''"
  by (simp_all add: demo_block1_def demo_block2_def eval_simps)

text \<open>
  C9, as amended. \<^verbatim>\<open>calculate_block_hash\<close> stores the hash as printed by \<^verbatim>\<open>%lx\<close>:
  between 1 and 16 lower-case hexadecimal digits, with no padding (no leading zero but
  for the hash 0), so not of one fixed length. \<^verbatim>\<open>add_block\<close> copies the \<^verbatim>\<open>current_hash\<close> of the last block unchanged
  into the \<^verbatim>\<open>previous_hash\<close> of the block it appends.
\<close>

theorem fingerprint_text:
  "1 \<le> length (current_hash (calculate_block_hash b))
   \<and> length (current_hash (calculate_block_hash b)) \<le> 16
   \<and> set (current_hash (calculate_block_hash b)) \<subseteq> set ''0123456789abcdef''
   \<and> (current_hash (calculate_block_hash b) = ''0''
        \<or> hd (current_hash (calculate_block_hash b)) \<noteq> CHR ''0'')
   \<and> (add_block c fresh now now1 now2 = Inr c' \<longrightarrow>
        butlast c' = c \<and> previous_hash (last c') = current_hash (last c))"
proof -
  have eq: "current_hash (calculate_block_hash b) = fingerprint b"
    by (simp add: fingerprint_def)
  have "fingerprint b \<noteq> []"
    by (simp add: fingerprint_fmt_lx fmt_lx_def hex_digits_nonempty)
  then have "1 \<le> length (fingerprint b)"
    by (simp add: Suc_le_eq)
  moreover have "length (fingerprint b) \<le> 16"
    by (simp add: fingerprint_fmt_lx fmt_lx_length)
  moreover have "set (fingerprint b) \<subseteq> set ''0123456789abcdef''"
    unfolding fingerprint_fmt_lx fmt_lx_def by (rule hex_digits_set)
  moreover have "fingerprint b = ''0'' \<or> hd (fingerprint b) \<noteq> CHR ''0''"
  proof (cases "unat (simple_hash (snprintf 256
      (fmt_d (index b) @ previous_hash b @ fmt_d (timestamp b)))) = 0")
    case True
    then show ?thesis
      by (simp add: fingerprint_fmt_lx fmt_lx_def)
  next
    case False
    then show ?thesis
      by (simp add: fingerprint_fmt_lx fmt_lx_def hex_digits_hd)
  qed
  moreover have "butlast c' = c \<and> previous_hash (last c') = current_hash (last c)"
    if "add_block c fresh now now1 now2 = Inr c'"
    using that by (auto simp: add_block_eq split: if_splits)
  ultimately show ?thesis
    unfolding eq by blast
qed

theorem fingerprint_text_witness:
  "add_block [demo_genesis, demo_block1] fresh0 1770000003 1770000003 1770000003 = Inr demo_chain
   \<and> butlast demo_chain = [demo_genesis, demo_block1]
   \<and> previous_hash (last demo_chain) = ''5883b7591222a30c''
   \<and> current_hash demo_block1 = ''5883b7591222a30c''
   \<and> current_hash (calculate_block_hash demo_block2) = ''88e0d23a48c7f96''
   \<and> length (current_hash (calculate_block_hash demo_block2)) \<le> 16"
proof -
  note t = fingerprint_text [of demo_block2 "[demo_genesis, demo_block1]" fresh0
      1770000003 1770000003 1770000003 demo_chain]
  have "current_hash demo_block1 = ''5883b7591222a30c''"
    by (simp add: demo_block1_def)
  with t demo_add2 demo_hashes(2) show ?thesis
    by simp
qed

text \<open>
  The fingerprints are not of one length: in the run above the second block gets 16
  digits and the third 15.
\<close>

theorem fixed_length_counterexample:
  "length (current_hash (calculate_block_hash demo_block1)) = 16
   \<and> length (current_hash (calculate_block_hash demo_block2)) = 15"
  by (simp add: demo_hashes)

section \<open>What add\_block does, and in which order\<close>

text \<open>
  A call of \<^verbatim>\<open>add_block\<close> returns a chain unless the head is null or the last index
  is \<^verbatim>\<open>INT_MAX\<close>, and a run of fewer than \<open>2\<^sup>3\<^sup>1 - 1\<close> calls never faults.
\<close>

lemma add_block_succeeds:
  assumes "c \<noteq> []" and "index (last c) < INT_MAX"
  shows "\<exists>c'. add_block c fresh now now1 now2 = Inr c'"
  using assms by (simp add: add_block_eq)

lemma indices_last:
  assumes "c \<noteq> []" and "map index c = map int [0..<length c]"
  shows "index (last c) = int (length c) - 1"
proof -
  from assms(1) have "index (last c) = last (map index c)"
    by (simp add: last_map)
  also have "\<dots> = last (map int [0..<length c])"
    by (simp only: assms(2))
  also from assms(1) have "\<dots> = int (last [0..<length c])"
    by (simp add: last_map)
  also from assms(1) have "\<dots> = int (length c - 1)"
    by (simp add: last_upt)
  finally show ?thesis
    using assms(1) by (simp add: of_nat_diff Suc_leI)
qed

lemma add_blocks_succeeds:
  assumes "c \<noteq> [] \<and> map index c = map int [0..<length c]"
    and "int (length c) + int (length calls) \<le> INT_MAX + 1"
  shows "\<exists>c'. add_blocks c calls = Inr c'"
  using assms
proof (induction c calls rule: add_blocks.induct)
  case (1 blockchain)
  then show ?case by simp
next
  case (2 blockchain fresh now now1 now2 calls)
  from "2.prems"(1) have "index (last blockchain) = int (length blockchain) - 1"
    using indices_last by blast
  then have "index (last blockchain) < INT_MAX"
    using "2.prems"(2) by simp
  with "2.prems"(1) obtain c1 where c1: "add_block blockchain fresh now now1 now2 = Inr c1"
    using add_block_succeeds by blast
  with "2.prems"(1) have inv: "c1 \<noteq> [] \<and> map index c1 = map int [0..<length c1]"
    using add_block_indices by blast
  from c1 have "length c1 = Suc (length blockchain)"
    by (auto simp: add_block_eq split: if_splits)
  with "2.prems"(2) have "int (length c1) + int (length calls) \<le> INT_MAX + 1"
    by simp
  with "2.IH" [OF c1 inv] c1 show ?case
    by simp
qed

lemma build_chain_succeeds:
  assumes "\<not> fortified" and "length calls < 2147483647"
  shows "\<exists>c. build_chain fortified fresh now calls = Inr c"
proof -
  from assms(1) obtain g where start: "create_genesis_block fortified fresh now = Inr [g]"
    and "index g = 0"
    by (simp add: create_genesis_block_def)
  have "\<exists>c. add_blocks [g] calls = Inr c"
  proof (rule add_blocks_succeeds)
    show "[g] \<noteq> [] \<and> map index [g] = map int [0..<length [g]]"
      using \<open>index g = 0\<close> by simp
    show "int (length [g]) + int (length calls) \<le> INT_MAX + 1"
      using assms(2) by (simp add: INT_MAX_def)
  qed
  with start show ?thesis
    by (simp add: build_chain_def)
qed

lemma build_chain_fortified: "build_chain True fresh now calls = Inl Buffer_overflow"
  by (simp add: build_chain_def create_genesis_block_def)

lemma add_block_fingerprints:
  assumes "\<forall>b \<in> set c. current_hash b = fingerprint b"
    and "add_block c fresh now now1 now2 = Inr c'"
  shows "\<forall>b \<in> set c'. current_hash b = fingerprint b"
  using assms
  by (auto simp: add_block_eq calculate_block_hash_eq fingerprint_eq split: if_splits)

lemma build_chain_fingerprints:
  assumes "build_chain fortified fresh now calls = Inr c"
  shows "\<forall>b \<in> set c. current_hash b = fingerprint b"
proof -
  from assms obtain g where run: "add_blocks [g] calls = Inr c"
    and "current_hash g = fingerprint g"
    by (rule build_chain_start)
  from run show ?thesis
  proof (rule add_blocks_invariant
      [where P = "\<lambda>c. \<forall>b \<in> set c. current_hash b = fingerprint b"])
    show "\<forall>b \<in> set [g]. current_hash b = fingerprint b"
      using \<open>current_hash g = fingerprint g\<close> by simp
  qed (rule add_block_fingerprints)
qed

lemma demo_trace:
  "add_block_trace [demo_genesis] fresh0 1770000001 1770000001 1770000002 =
     Inr [[demo_genesis, demo_linked], [demo_genesis, demo_seeded1],
          [demo_genesis, demo_seeded2], [demo_genesis, demo_block1]]"
  by (simp add: add_block_trace_eq demo_genesis_def demo_linked_def demo_seeded1_def
      demo_seeded2_def demo_block1_def fresh0_def eval_simps)

text \<open>
  C6, as amended. \<^verbatim>\<open>add_block\<close> takes the chain and nothing else from its caller. It
  gives the new block the index of the last block plus one and the \<^verbatim>\<open>current_hash\<close>
  of the last block as \<^verbatim>\<open>previous_hash\<close>, links it behind the last block, then seeds
  it through \<^verbatim>\<open>add_transaction\<close> with the same two transactions in every call (Alice
  to Bob 1.5, Charlie to Dave 0.75, both accepted), and then computes its fingerprint.
\<close>

theorem add_block_result:
  assumes "add_block c fresh now now1 now2 = Inr c'"
  shows "c \<noteq> []
    \<and> c' = c @ [last c']
    \<and> index (last c') = index (last c) + 1
    \<and> previous_hash (last c') = current_hash (last c)
    \<and> timestamp (last c') = now
    \<and> transaction_count (last c') = 2
    \<and> transactions (last c') = (transactions fresh)
         [0 := \<lparr>sender = ''Alice'', receiver = ''Bob'', amount = 1.5, timestamp_tx = now1\<rparr>,
          1 := \<lparr>sender = ''Charlie'', receiver = ''Dave'', amount = 0.75,
                 timestamp_tx = now2\<rparr>]
    \<and> current_hash (last c') = fingerprint (last c')
    \<and> (let b0 = fresh\<lparr>index := index (last c) + 1, previous_hash := current_hash (last c),
                       transaction_count := 0, timestamp := now\<rparr>;
            r1 = add_transaction b0 ''Alice'' ''Bob'' 1.5 now1;
            r2 = add_transaction (snd r1) ''Charlie'' ''Dave'' 0.75 now2
        in fst r1 = Transaction_added ''Alice'' ''Bob'' 1.5
           \<and> fst r2 = Transaction_added ''Charlie'' ''Dave'' 0.75
           \<and> add_block_trace c fresh now now1 now2 =
               Inr [c @ [b0], c @ [snd r1], c @ [snd r2], c @ [calculate_block_hash (snd r2)]]
           \<and> c' = c @ [calculate_block_hash (snd r2)])"
proof -
  from assms have ne: "c \<noteq> []" and no: "\<not> INT_MAX \<le> index (last c)"
    by (auto simp: add_block_eq split: if_splits)
  then have c': "c' = c @ [calculate_block_hash
        (fresh\<lparr>index := index (last c) + 1, previous_hash := current_hash (last c),
                transactions := (transactions fresh)
                  [0 := \<lparr>sender = ''Alice'', receiver = ''Bob'', amount = 1.5,
                          timestamp_tx = now1\<rparr>,
                   1 := \<lparr>sender = ''Charlie'', receiver = ''Dave'', amount = 0.75,
                          timestamp_tx = now2\<rparr>],
                transaction_count := 2, timestamp := now\<rparr>)]"
    using assms by (simp add: add_block_eq)
  have fields: "c' = c @ [last c']" "index (last c') = index (last c) + 1"
    "previous_hash (last c') = current_hash (last c)" "timestamp (last c') = now"
    "transaction_count (last c') = 2"
    "transactions (last c') = (transactions fresh)
         [0 := \<lparr>sender = ''Alice'', receiver = ''Bob'', amount = 1.5, timestamp_tx = now1\<rparr>,
          1 := \<lparr>sender = ''Charlie'', receiver = ''Dave'', amount = 0.75,
                 timestamp_tx = now2\<rparr>]"
    "current_hash (last c') = fingerprint (last c')"
    unfolding c' by (simp_all add: calculate_block_hash_eq fingerprint_eq)
  have trace: "(let b0 = fresh\<lparr>index := index (last c) + 1, previous_hash := current_hash (last c),
                       transaction_count := 0, timestamp := now\<rparr>;
            r1 = add_transaction b0 ''Alice'' ''Bob'' 1.5 now1;
            r2 = add_transaction (snd r1) ''Charlie'' ''Dave'' 0.75 now2
        in fst r1 = Transaction_added ''Alice'' ''Bob'' 1.5
           \<and> fst r2 = Transaction_added ''Charlie'' ''Dave'' 0.75
           \<and> add_block_trace c fresh now now1 now2 =
               Inr [c @ [b0], c @ [snd r1], c @ [snd r2], c @ [calculate_block_hash (snd r2)]]
           \<and> c' = c @ [calculate_block_hash (snd r2)])"
    using assms ne no
    by (simp add: add_block_def add_block_trace_def find_last_eq Let_def add_transaction_def
        MAX_TRANSACTIONS_def)
  from ne fields trace show ?thesis
    by blast
qed

theorem add_block_result_witness:
  "add_block [demo_genesis] fresh0 1770000001 1770000001 1770000002 =
     Inr [demo_genesis, demo_block1]
   \<and> index demo_block1 = index demo_genesis + 1
   \<and> previous_hash demo_block1 = current_hash demo_genesis
   \<and> timestamp demo_block1 = 1770000001
   \<and> transaction_count demo_block1 = 2
   \<and> transactions demo_block1 = (transactions fresh0)
        [0 := \<lparr>sender = ''Alice'', receiver = ''Bob'', amount = 1.5,
                timestamp_tx = 1770000001\<rparr>,
         1 := \<lparr>sender = ''Charlie'', receiver = ''Dave'', amount = 0.75,
                timestamp_tx = 1770000002\<rparr>]
   \<and> current_hash demo_block1 = fingerprint demo_block1"
  using add_block_result [OF demo_add1] demo_add1 by simp

text \<open>
  No call seeds the transactions of the caller's choice: whatever the memory and the
  clock, the block appended to the chain of the genesis block holds two transactions,
  and in the run above they are the two of the program text.
\<close>

theorem caller_supplied_counterexample:
  "add_block [demo_genesis] fresh0 1770000001 1770000001 1770000002 =
     Inr [demo_genesis, demo_block1]
   \<and> transaction_count demo_block1 = 2
   \<and> map sender (take 2 (transactions demo_block1)) = [''Alice'', ''Charlie'']
   \<and> map receiver (take 2 (transactions demo_block1)) = [''Bob'', ''Dave'']
   \<and> \<not> (\<exists>fresh now now1 now2 c'.
          add_block [demo_genesis] fresh now now1 now2 = Inr c'
          \<and> transaction_count (last c') \<noteq> 2)"
proof -
  have "\<not> (\<exists>fresh now now1 now2 c'.
          add_block [demo_genesis] fresh now now1 now2 = Inr c'
          \<and> transaction_count (last c') \<noteq> 2)"
    by (auto simp: add_block_eq split: if_splits)
  moreover have "map sender (take 2 (transactions demo_block1)) = [''Alice'', ''Charlie'']"
    "map receiver (take 2 (transactions demo_block1)) = [''Bob'', ''Dave'']"
    by (simp_all add: demo_block1_def fresh0_def eval_nat_numeral)
  moreover have "transaction_count demo_block1 = 2"
    by (simp add: demo_block1_def)
  ultimately show ?thesis
    using demo_add1 by simp
qed

text \<open>
  C5, as amended. The \<^verbatim>\<open>current_hash\<close> of a block is written once, by the last
  statement of the call that creates the block and after its transactions are seeded.
  In \<^verbatim>\<open>add_block\<close> the new block is by then already linked behind the last block:
  in the three states before, the chain ends with a block whose \<^verbatim>\<open>current_hash\<close>
  still holds what \<^verbatim>\<open>malloc\<close> returned. The blocks linked earlier are not written to,
  and on entry and on return every block of the chain carries its fingerprint, so the
  fingerprint is assigned before a successor is linked behind the block.
\<close>

theorem fingerprint_assigned_last:
  assumes "build_chain fortified fresh now calls = Inr c"
    and "add_block_trace c fresh' now' now1 now2 = Inr states"
  shows "\<exists>b0 b1 b2.
      states = [c @ [b0], c @ [b1], c @ [b2], c @ [calculate_block_hash b2]]
      \<and> current_hash b0 = current_hash fresh'
      \<and> current_hash b1 = current_hash fresh'
      \<and> current_hash b2 = current_hash fresh'
      \<and> (\<forall>b \<in> set c. current_hash b = fingerprint b)
      \<and> (\<forall>b \<in> set (c @ [calculate_block_hash b2]). current_hash b = fingerprint b)
      \<and> add_block c fresh' now' now1 now2 = Inr (c @ [calculate_block_hash b2])"
proof -
  have old: "\<forall>b \<in> set c. current_hash b = fingerprint b"
    using assms(1) by (rule build_chain_fingerprints)
  define b0 where "b0 = fresh'\<lparr>index := index (last c) + 1,
    previous_hash := current_hash (last c), transaction_count := 0, timestamp := now'\<rparr>"
  define b1 where "b1 = b0\<lparr>transactions := (transactions fresh')
      [0 := \<lparr>sender = ''Alice'', receiver = ''Bob'', amount = 1.5, timestamp_tx = now1\<rparr>],
    transaction_count := 1\<rparr>"
  define b2 where "b2 = b1\<lparr>transactions := (transactions b1)
      [1 := \<lparr>sender = ''Charlie'', receiver = ''Dave'', amount = 0.75, timestamp_tx = now2\<rparr>],
    transaction_count := 2\<rparr>"
  from assms(2) have states:
    "states = [c @ [b0], c @ [b1], c @ [b2], c @ [calculate_block_hash b2]]"
    by (simp add: add_block_trace_eq b0_def b1_def b2_def Let_def split: if_splits)
  have hashes: "current_hash b0 = current_hash fresh'" "current_hash b1 = current_hash fresh'"
    "current_hash b2 = current_hash fresh'"
    by (simp_all add: b0_def b1_def b2_def)
  have new: "current_hash (calculate_block_hash b2) = fingerprint (calculate_block_hash b2)"
    by (simp add: calculate_block_hash_eq fingerprint_eq)
  have result: "add_block c fresh' now' now1 now2 = Inr (c @ [calculate_block_hash b2])"
    using assms(2) states by (simp add: add_block_def)
  from old new have "\<forall>b \<in> set (c @ [calculate_block_hash b2]). current_hash b = fingerprint b"
    by simp
  with states hashes old result show ?thesis
    by blast
qed

theorem fingerprint_assigned_last_witness:
  "build_chain False fresh0 1770000000 [] = Inr [demo_genesis]
   \<and> add_block_trace [demo_genesis] fresh0 1770000001 1770000001 1770000002 =
       Inr [[demo_genesis, demo_linked], [demo_genesis, demo_seeded1],
            [demo_genesis, demo_seeded2], [demo_genesis, demo_block1]]
   \<and> current_hash demo_genesis = fingerprint demo_genesis
   \<and> current_hash demo_block1 = fingerprint demo_block1
   \<and> add_block [demo_genesis] fresh0 1770000001 1770000001 1770000002 =
       Inr [demo_genesis, demo_block1]"
proof -
  have build: "build_chain False fresh0 1770000000 [] = Inr [demo_genesis]"
    by (simp add: build_chain_def demo_create)
  from fingerprint_assigned_last [OF build demo_trace] obtain b0 b1 b2 where
    st: "[[demo_genesis, demo_linked], [demo_genesis, demo_seeded1],
          [demo_genesis, demo_seeded2], [demo_genesis, demo_block1]] =
         [[demo_genesis] @ [b0], [demo_genesis] @ [b1], [demo_genesis] @ [b2],
          [demo_genesis] @ [calculate_block_hash b2]]"
    and fp: "\<forall>b \<in> set ([demo_genesis] @ [calculate_block_hash b2]).
      current_hash b = fingerprint b"
    and res: "add_block [demo_genesis] fresh0 1770000001 1770000001 1770000002 =
      Inr ([demo_genesis] @ [calculate_block_hash b2])"
    by blast
  from st have b2: "calculate_block_hash b2 = demo_block1"
    by auto
  from fp have "current_hash demo_genesis = fingerprint demo_genesis"
    "current_hash demo_block1 = fingerprint demo_block1"
    unfolding b2 by simp_all
  moreover from res have "add_block [demo_genesis] fresh0 1770000001 1770000001 1770000002 =
      Inr [demo_genesis, demo_block1]"
    unfolding b2 by simp
  ultimately have "current_hash demo_genesis = fingerprint demo_genesis"
    "current_hash demo_block1 = fingerprint demo_block1"
    "add_block [demo_genesis] fresh0 1770000001 1770000001 1770000002 =
      Inr [demo_genesis, demo_block1]"
    by simp_all
  with build demo_trace show ?thesis
    by simp
qed

text \<open>
  The first state of the first call of \<^verbatim>\<open>add_block\<close> in the run above: the new block
  is the successor of the genesis block, its \<^verbatim>\<open>current_hash\<close> is the \<open>''?''\<close> of the
  fresh memory, and its fingerprint is assigned three states later.
\<close>

theorem linked_before_fingerprint_counterexample:
  "add_block_trace [demo_genesis] fresh0 1770000001 1770000001 1770000002 =
     Inr [[demo_genesis, demo_linked], [demo_genesis, demo_seeded1],
          [demo_genesis, demo_seeded2], [demo_genesis, demo_block1]]
   \<and> current_hash fresh0 = ''?''
   \<and> current_hash demo_linked = ''?''
   \<and> current_hash demo_seeded1 = ''?''
   \<and> current_hash demo_seeded2 = ''?''
   \<and> fingerprint demo_linked = ''5883b7591222a30c''
   \<and> current_hash demo_block1 = ''5883b7591222a30c''"
proof -
  have "fingerprint demo_linked = ''5883b7591222a30c''"
    by (simp add: demo_linked_def eval_simps)
  then show ?thesis
    using demo_trace
    by (simp add: demo_linked_def demo_seeded1_def demo_seeded2_def demo_block1_def fresh0_def)
qed

end
